theory Spec2Isabelle
  imports Main
begin

section \<open>The calculator module: \<open>add\<close> and its demonstration driver\<close>

text \<open>
  The module under study is \<^verbatim>\<open>src/backend/calculator.py\<close>:
  \<^verbatim>\<open>
  def add(a, b):
      return a + b

  if __name__ == "__main__":
      num1 = 5
      num2 = 3
      result = add(num1, num2)
      print(f"{num1} + {num2} = {result}")
      print(f"10 + 20 = {add(10, 20)}")
      print(f"3.5 + 2.5 = {add(3.5, 2.5)}")
      print(f"-5 + 15 = {add(-5, 15)}")
  \<close>
  \<open>add\<close> is the language's binary \<open>+\<close> applied to two untyped arguments, so the first
  part of the development is the semantics of \<open>+\<close> on the built-in values: \<open>None\<close>,
  \<open>bool\<close>, \<open>int\<close>, \<open>float\<close>, \<open>str\<close> and \<open>list\<close>, and on the instances of any other
  class, whose addition methods are given by the class. Memory exhaustion is outside
  the development.
\<close>

subsection \<open>Floating-point numbers\<close>

text \<open>
  A \<open>float\<close> is an IEEE 754 binary64 number. Every finite binary64 number is an integer
  multiple of \<open>2 ^ -1074\<close>, so \<open>Finite s m\<close> stands for \<open>(-1) ^ s * m * 2 ^ -1074\<close>:
  the sign (\<open>True\<close> is negative) and the magnitude counted in units of \<open>2 ^ -1074\<close>.
  The payload of a NaN is not observable from the program and is not modelled.
\<close>

datatype pyfloat = Finite bool nat | Infinity bool | NaN

text \<open>The number of binary digits of a magnitude (\<open>int.bit_length\<close>).\<close>

fun bit_length :: "nat \<Rightarrow> nat" where
  "bit_length n = (if n = 0 then 0 else Suc (bit_length (n div 2)))"

declare bit_length.simps [simp del]

text \<open>
  A magnitude has the shape of a binary64 number when it fits 53 significant bits; it is
  the magnitude of a finite binary64 number when it is also below \<open>2 ^ 1024\<close>, which is
  \<open>2 ^ 2098\<close> units.
\<close>

definition fits53 :: "nat \<Rightarrow> bool" where
  "fits53 m \<longleftrightarrow> bit_length m \<le> 53 \<or> 2 ^ (bit_length m - 53) dvd m"

definition is_double :: "pyfloat \<Rightarrow> bool" where
  "is_double x = (case x of Finite s m \<Rightarrow> fits53 m \<and> m < 2 ^ 2098 | _ \<Rightarrow> True)"

text \<open>
  Rounding a magnitude to 53 significant bits, to nearest, ties to the even significand:
  the rounding of binary64 arithmetic in the default mode. A carry out of the
  significand (\<open>q + 1 = 2 ^ 53\<close>) needs no special case: \<open>2 ^ 53 * 2 ^ sh\<close> is the next
  power of two.
\<close>

definition round_half_even :: "nat \<Rightarrow> nat" where
  "round_half_even n =
     (let b = bit_length n in
      if b \<le> 53 then n
      else
        let sh = b - 53;
            q = n div 2 ^ sh;
            r = n mod 2 ^ sh;
            q' = (if 2 ^ sh < 2 * r \<or> (2 * r = 2 ^ sh \<and> odd q) then q + 1 else q)
        in q' * 2 ^ sh)"

text \<open>The signed value of a finite number, in units of \<open>2 ^ -1074\<close>.\<close>

definition signed :: "bool \<Rightarrow> nat \<Rightarrow> int" where
  "signed s m = (if s then - int m else int m)"

text \<open>
  The result of an arithmetic operation whose exact value is \<open>v\<close> units, \<open>v \<noteq> 0\<close>:
  rounded, and infinite when the rounded magnitude reaches \<open>2 ^ 1024\<close>.
\<close>

definition round_double :: "int \<Rightarrow> pyfloat" where
  "round_double v =
     (let m = round_half_even (nat \<bar>v\<bar>) in
      if 2 ^ 2098 \<le> m then Infinity (v < 0) else Finite (v < 0) m)"

text \<open>
  Binary64 addition. A NaN operand gives NaN; infinities of opposite sign give NaN;
  an exact sum of zero is \<open>+0\<close> unless both operands are \<open>-0\<close> (or negative and cancel
  to \<open>-0 + -0\<close>); any other sum is the exact sum rounded once.
\<close>

fun float_add :: "pyfloat \<Rightarrow> pyfloat \<Rightarrow> pyfloat" where
  "float_add NaN y = NaN"
| "float_add x NaN = NaN"
| "float_add (Infinity s) (Infinity t) = (if s = t then Infinity s else NaN)"
| "float_add (Infinity s) (Finite t m) = Infinity s"
| "float_add (Finite s m) (Infinity t) = Infinity t"
| "float_add (Finite s m) (Finite t k) =
     (let v = signed s m + signed t k in
      if v = 0 then Finite (s \<and> t) 0 else round_double v)"

subsection \<open>Values, errors and the world\<close>

text \<open>
  A list is a mutable object: the value is a reference, the elements are in the heap.
  The values of the other built-in types modelled here are immutable. A \<open>str\<close> is its
  sequence of characters. An instance of a class that does not derive from these types
  is \<open>PyObject c p\<close>, its class \<open>c\<close> and the address \<open>p\<close> of its state: the class may be
  defined by the user, with or without \<open>__add__\<close> and \<open>__radd__\<close>, or come with the
  language (\<open>complex\<close>, \<open>tuple\<close>, \<open>bytes\<close>, \<open>Fraction\<close>, \<open>timedelta\<close>, \<open>Counter\<close>).
\<close>

datatype pyobj =
    PyNone
  | PyBool bool
  | PyInt int
  | PyFloat pyfloat
  | PyStr string
  | PyList nat
  | PyObject nat nat

text \<open>
  \<open>TypeError\<close> and \<open>OverflowError\<close> are the exceptions that \<open>+\<close> raises on the built-in
  types, with their messages; a method of another class may raise an exception of any
  class, given by its name and message.
\<close>

datatype pyerror = TypeError string | OverflowError string | OtherError string string

text \<open>
  What a method of a class can read and change: the list objects and the states of the
  instances, the next free address, and what has been written to standard output.
\<close>

type_synonym store = "(nat \<Rightarrow> pyobj list) \<times> nat \<times> string"

text \<open>The answer of an addition method: \<open>NotImplemented\<close>, an exception, or a value.\<close>

datatype outcome = NotImplemented | Raise pyerror | Return pyobj

text \<open>
  A class, as far as \<open>+\<close> looks at it: its name; what its addition does with an
  instance as the left operand (\<open>__add__\<close>) and as the right operand (\<open>__radd__\<close>); its
  sequence concatenation, when it has one; and whether, for a given left operand, it
  is a proper subclass of the left operand's class that overrides the reflected method,
  so that its \<open>__radd__\<close> is tried first. A class without \<open>__add__\<close> (or \<open>__radd__\<close>)
  answers \<open>NotImplemented\<close> and changes nothing. The methods are taken as they are,
  as functions of the store. A method that does not terminate, or that redefines the
  methods of a class while \<open>+\<close> is evaluated, is outside the development, and so are
  the instances of subclasses of \<open>bool\<close>, \<open>int\<close>, \<open>float\<close>, \<open>str\<close> and \<open>list\<close>, which
  the slots of these types accept as their own values.
\<close>

record pyclass =
  class_name :: string
  nb_add :: "store \<Rightarrow> pyobj \<Rightarrow> pyobj \<Rightarrow> outcome \<times> store"
  nb_radd :: "store \<Rightarrow> pyobj \<Rightarrow> pyobj \<Rightarrow> outcome \<times> store"
  sq_concat :: "(store \<Rightarrow> pyobj \<Rightarrow> pyobj \<Rightarrow> (pyerror + pyobj) \<times> store) option"
  reflected_first :: "pyobj \<Rightarrow> bool"

text \<open>
  The state outside the function: the list objects and instance states, the next free
  address, what has been written to standard output, and the classes.
\<close>

record world =
  heap :: "nat \<Rightarrow> pyobj list"
  next_addr :: nat
  stdout :: string
  classes :: "nat \<Rightarrow> pyclass"

subsection \<open>The binary \<open>+\<close>\<close>

fun type_name :: "world \<Rightarrow> pyobj \<Rightarrow> string" where
  "type_name w PyNone = ''NoneType''"
| "type_name w (PyBool b) = ''bool''"
| "type_name w (PyInt n) = ''int''"
| "type_name w (PyFloat x) = ''float''"
| "type_name w (PyStr s) = ''str''"
| "type_name w (PyList p) = ''list''"
| "type_name w (PyObject c p) = class_name (classes w c)"

text \<open>\<open>bool\<close> is a subclass of \<open>int\<close>: \<open>True\<close> is 1 and \<open>False\<close> is 0.\<close>

fun as_int :: "pyobj \<Rightarrow> int option" where
  "as_int (PyBool b) = Some (if b then 1 else 0)"
| "as_int (PyInt n) = Some n"
| "as_int v = None"

text \<open>
  \<open>PyLong_AsDouble\<close>: an \<open>int\<close> converts to the nearest \<open>float\<close> (ties to even), and the
  conversion raises when the rounded magnitude reaches \<open>2 ^ 1024\<close>.
\<close>

definition long_as_double :: "int \<Rightarrow> pyerror + pyfloat" where
  "long_as_double n =
     (let m = round_half_even (nat \<bar>n\<bar> * 2 ^ 1074) in
      if 2 ^ 2098 \<le> m then Inl (OverflowError ''int too large to convert to float'')
      else Inr (Finite (n < 0) m))"

text \<open>
  \<open>CONVERT_TO_DOUBLE\<close> of \<open>float_add\<close>: a \<open>float\<close> is taken as it is, an \<open>int\<close> (or
  \<open>bool\<close>) is converted, anything else makes the operation answer \<open>NotImplemented\<close>
  (\<open>None\<close> here).
\<close>

definition convert_to_double :: "pyobj \<Rightarrow> (pyerror + pyfloat) option" where
  "convert_to_double v =
     (case v of
        PyFloat x \<Rightarrow> Some (Inr x)
      | _ \<Rightarrow> map_option long_as_double (as_int v))"

fun is_float :: "pyobj \<Rightarrow> bool" where
  "is_float (PyFloat x) = True"
| "is_float v = False"

text \<open>
  The numeric slot \<open>nb_add\<close> of the two operands: \<open>int + int\<close> is exact; when one operand
  is a \<open>float\<close> both are converted, the left one first, and added as binary64 numbers;
  \<open>None\<close> is \<open>NotImplemented\<close>.
\<close>

definition number_add :: "pyobj \<Rightarrow> pyobj \<Rightarrow> (pyerror + pyobj) option" where
  "number_add a b =
     (case (as_int a, as_int b) of
        (Some x, Some y) \<Rightarrow> Some (Inr (PyInt (x + y)))
      | _ \<Rightarrow>
        if is_float a \<or> is_float b then
          (case convert_to_double a of
             None \<Rightarrow> None
           | Some (Inl e) \<Rightarrow> Some (Inl e)
           | Some (Inr x) \<Rightarrow>
               (case convert_to_double b of
                  None \<Rightarrow> None
                | Some (Inl e) \<Rightarrow> Some (Inl e)
                | Some (Inr y) \<Rightarrow> Some (Inr (PyFloat (float_add x y)))))
        else None)"

definition unsupported_operand :: "world \<Rightarrow> pyobj \<Rightarrow> pyobj \<Rightarrow> pyerror" where
  "unsupported_operand w a b =
     TypeError (''unsupported operand type(s) for +: '' @ [CHR 0x27] @ type_name w a
                @ [CHR 0x27] @ '' and '' @ [CHR 0x27] @ type_name w b @ [CHR 0x27])"

definition can_only_concatenate :: "world \<Rightarrow> pyobj \<Rightarrow> pyobj \<Rightarrow> pyerror" where
  "can_only_concatenate w a b =
     TypeError (''can only concatenate '' @ type_name w a @ '' (not '' @ [CHR 0x22]
                @ type_name w b @ [CHR 0x22] @ '') to '' @ type_name w a)"

text \<open>
  \<open>a + b\<close> on the built-in types: the numeric slot first; when it answers
  \<open>NotImplemented\<close>, the sequence concatenation of the left operand (\<open>str\<close> and \<open>list\<close>
  have one); otherwise the \<open>TypeError\<close> for unsupported operands. Concatenating two
  lists allocates the result: a new object at the next free address.
\<close>

definition builtin_add :: "world \<Rightarrow> pyobj \<Rightarrow> pyobj \<Rightarrow> (pyerror + pyobj) \<times> world" where
  "builtin_add w a b =
     (case number_add a b of
        Some r \<Rightarrow> (r, w)
      | None \<Rightarrow>
        (case a of
           PyStr s \<Rightarrow>
             (case b of
                PyStr t \<Rightarrow> (Inr (PyStr (s @ t)), w)
              | _ \<Rightarrow> (Inl (can_only_concatenate w a b), w))
         | PyList p \<Rightarrow>
             (case b of
                PyList q \<Rightarrow>
                  (Inr (PyList (next_addr w)),
                   w\<lparr>heap := (heap w)(next_addr w := heap w p @ heap w q),
                     next_addr := Suc (next_addr w)\<rparr>)
              | _ \<Rightarrow> (Inl (can_only_concatenate w a b), w))
         | _ \<Rightarrow> (Inl (unsupported_operand w a b), w)))"

text \<open>Calling a method of a class: it works on the store of the world.\<close>

definition store_of :: "world \<Rightarrow> store" where
  "store_of w = (heap w, next_addr w, stdout w)"

definition with_store :: "world \<Rightarrow> store \<Rightarrow> world" where
  "with_store w st =
     (case st of (h, n, s) \<Rightarrow> w\<lparr>heap := h, next_addr := n, stdout := s\<rparr>)"

definition call_slot ::
  "(store \<Rightarrow> pyobj \<Rightarrow> pyobj \<Rightarrow> 'r \<times> store) \<Rightarrow> world \<Rightarrow> pyobj \<Rightarrow> pyobj \<Rightarrow> 'r \<times> world" where
  "call_slot f w a b = (case f (store_of w) a b of (r, st) \<Rightarrow> (r, with_store w st))"

fun is_object :: "pyobj \<Rightarrow> bool" where
  "is_object (PyObject c p) = True"
| "is_object v = False"

text \<open>
  The numeric slots when an operand is an instance of another class. The slot of the
  left operand is its \<open>__add__\<close>, the slot of the right operand its \<open>__radd__\<close>; the
  slot of a built-in operand answers \<open>NotImplemented\<close> for an instance, and \<open>None\<close>,
  \<open>str\<close> and \<open>list\<close> have no numeric slot.
\<close>

definition left_slot :: "world \<Rightarrow> pyobj \<Rightarrow> pyobj \<Rightarrow> outcome \<times> world" where
  "left_slot w a b =
     (case a of
        PyObject c p \<Rightarrow> call_slot (nb_add (classes w c)) w a b
      | _ \<Rightarrow> (NotImplemented, w))"

definition right_slot :: "world \<Rightarrow> pyobj \<Rightarrow> pyobj \<Rightarrow> outcome \<times> world" where
  "right_slot w a b =
     (case b of
        PyObject d q \<Rightarrow> call_slot (nb_radd (classes w d)) w a b
      | _ \<Rightarrow> (NotImplemented, w))"

definition same_class :: "pyobj \<Rightarrow> pyobj \<Rightarrow> bool" where
  "same_class a b = (case (a, b) of (PyObject c p, PyObject d q) \<Rightarrow> c = d | _ \<Rightarrow> False)"

definition right_goes_first :: "world \<Rightarrow> pyobj \<Rightarrow> pyobj \<Rightarrow> bool" where
  "right_goes_first w a b =
     (case b of PyObject d q \<Rightarrow> reflected_first (classes w d) a | _ \<Rightarrow> False)"

text \<open>
  The order of the slots: for two instances of one class only \<open>__add__\<close> of the left
  operand is asked; otherwise the left operand first and then the right one, or, when
  the class of the right operand overrides the reflected method of a superclass, the
  right operand first and then the left one. A slot that answers \<open>NotImplemented\<close> may
  have changed the store all the same.
\<close>

definition object_slots :: "world \<Rightarrow> pyobj \<Rightarrow> pyobj \<Rightarrow> outcome \<times> world" where
  "object_slots w a b =
     (if same_class a b then left_slot w a b
      else if right_goes_first w a b then
        (case right_slot w a b of
           (NotImplemented, w1) \<Rightarrow> left_slot w1 a b
         | r \<Rightarrow> r)
      else
        (case left_slot w a b of
           (NotImplemented, w1) \<Rightarrow> right_slot w1 a b
         | r \<Rightarrow> r))"

text \<open>
  \<open>a + b\<close> when an operand is an instance of another class: the numeric slots; when
  they answer \<open>NotImplemented\<close>, the sequence concatenation of the left operand, which
  for a \<open>str\<close> or a \<open>list\<close> rejects the instance; otherwise the \<open>TypeError\<close> for
  unsupported operands.
\<close>

definition object_add :: "world \<Rightarrow> pyobj \<Rightarrow> pyobj \<Rightarrow> (pyerror + pyobj) \<times> world" where
  "object_add w a b =
     (case object_slots w a b of
        (Return v, w1) \<Rightarrow> (Inr v, w1)
      | (Raise e, w1) \<Rightarrow> (Inl e, w1)
      | (NotImplemented, w1) \<Rightarrow>
          (case a of
             PyStr s \<Rightarrow> (Inl (can_only_concatenate w1 a b), w1)
           | PyList p \<Rightarrow> (Inl (can_only_concatenate w1 a b), w1)
           | PyObject c p \<Rightarrow>
               (case sq_concat (classes w1 c) of
                  Some f \<Rightarrow> call_slot f w1 a b
                | None \<Rightarrow> (Inl (unsupported_operand w1 a b), w1))
           | _ \<Rightarrow> (Inl (unsupported_operand w1 a b), w1)))"

text \<open>\<open>a + b\<close>.\<close>

definition py_add :: "world \<Rightarrow> pyobj \<Rightarrow> pyobj \<Rightarrow> (pyerror + pyobj) \<times> world" where
  "py_add w a b = (if is_object a \<or> is_object b then object_add w a b else builtin_add w a b)"

subsection \<open>The function \<open>add\<close>\<close>

text \<open>\<^verbatim>\<open>def add(a, b): return a + b\<close>\<close>

definition add :: "world \<Rightarrow> pyobj \<Rightarrow> pyobj \<Rightarrow> (pyerror + pyobj) \<times> world" where
  "add w a b = py_add w a b"

subsection \<open>Equality of numbers\<close>

text \<open>
  \<open>==\<close> on numbers compares the exact values: a NaN is equal to nothing, itself
  included; \<open>-0.0\<close> equals \<open>0.0\<close>; an \<open>int\<close> and a \<open>float\<close> are compared without rounding
  the \<open>int\<close>.
\<close>

fun float_eq :: "pyfloat \<Rightarrow> pyfloat \<Rightarrow> bool" where
  "float_eq (Finite s m) (Finite t k) = (signed s m = signed t k)"
| "float_eq (Infinity s) (Infinity t) = (s = t)"
| "float_eq x y = False"

fun int_float_eq :: "int \<Rightarrow> pyfloat \<Rightarrow> bool" where
  "int_float_eq n (Finite s m) = (n * 2 ^ 1074 = signed s m)"
| "int_float_eq n x = False"

text \<open>
  \<open>a == b\<close>. Two lists compare by identity and then element by element, and an
  instance of another class compares by the methods of its class: both are outside the
  development, and the answer \<open>None\<close> stands for these cases only.
\<close>

definition py_eq :: "pyobj \<Rightarrow> pyobj \<Rightarrow> bool option" where
  "py_eq a b =
     (if is_object a \<or> is_object b then None else
      case (as_int a, as_int b) of
        (Some x, Some y) \<Rightarrow> Some (x = y)
      | (Some x, None) \<Rightarrow> (case b of PyFloat y \<Rightarrow> Some (int_float_eq x y) | _ \<Rightarrow> Some False)
      | (None, Some y) \<Rightarrow> (case a of PyFloat x \<Rightarrow> Some (int_float_eq y x) | _ \<Rightarrow> Some False)
      | (None, None) \<Rightarrow>
          (case (a, b) of
             (PyFloat x, PyFloat y) \<Rightarrow> Some (float_eq x y)
           | (PyStr s, PyStr t) \<Rightarrow> Some (s = t)
           | (PyNone, PyNone) \<Rightarrow> Some True
           | (PyList p, PyList q) \<Rightarrow> None
           | _ \<Rightarrow> Some False))"

subsection \<open>The default string representation\<close>

fun str_nat :: "nat \<Rightarrow> string" where
  "str_nat n =
     (if n < 10 then [''0123456789'' ! n]
      else str_nat (n div 10) @ [''0123456789'' ! (n mod 10)])"

declare str_nat.simps [simp del]

definition str_int :: "int \<Rightarrow> string" where
  "str_int n = (if n < 0 then ''-'' @ str_nat (nat (- n)) else str_nat (nat n))"

text \<open>
  Three renderings are taken as parameters, since no statement here depends on them:
  the \<open>repr\<close> of a list object (of its elements, with the detection of cycles), the
  \<open>str\<close> of an instance of another class, and the shortest digits that read back as
  the same number, for a \<open>float\<close> that is not an integer below \<open>10 ^ 16\<close>.
\<close>

record runtime =
  repr_list :: "(nat \<Rightarrow> pyobj list) \<Rightarrow> nat \<Rightarrow> string"
  str_object :: "(nat \<Rightarrow> pyobj list) \<Rightarrow> nat \<Rightarrow> nat \<Rightarrow> string"
  repr_shortest :: "bool \<Rightarrow> nat \<Rightarrow> string"

text \<open>
  \<open>repr\<close> of a \<open>float\<close>: an integral value of magnitude below \<open>10 ^ 16\<close> prints as the
  integer followed by \<open>.0\<close> (with the sign, also of \<open>-0.0\<close>).
\<close>

definition float_repr :: "runtime \<Rightarrow> pyfloat \<Rightarrow> string" where
  "float_repr rt x =
     (case x of
        NaN \<Rightarrow> ''nan''
      | Infinity s \<Rightarrow> (if s then ''-inf'' else ''inf'')
      | Finite s m \<Rightarrow>
          if 2 ^ 1074 dvd m \<and> m div 2 ^ 1074 < 10 ^ 16
          then (if s then ''-'' else []) @ str_nat (m div 2 ^ 1074) @ ''.0''
          else repr_shortest rt s m)"

text \<open>\<open>str(v)\<close>, which is also what a replacement field \<open>{v}\<close> of an f-string gives.\<close>

definition py_str :: "runtime \<Rightarrow> world \<Rightarrow> pyobj \<Rightarrow> string" where
  "py_str rt w v =
     (case v of
        PyNone \<Rightarrow> ''None''
      | PyBool b \<Rightarrow> (if b then ''True'' else ''False'')
      | PyInt n \<Rightarrow> str_int n
      | PyFloat x \<Rightarrow> float_repr rt x
      | PyStr s \<Rightarrow> s
      | PyList p \<Rightarrow> repr_list rt (heap w) p
      | PyObject c p \<Rightarrow> str_object rt (heap w) c p)"

text \<open>\<open>print(s)\<close> writes the text and a newline.\<close>

definition py_print :: "world \<Rightarrow> string \<Rightarrow> world" where
  "py_print w s = w\<lparr>stdout := stdout w @ s @ [CHR 0x0A]\<rparr>"

subsection \<open>The demonstration driver\<close>

text \<open>
  The literal with value \<open>(-1) ^ s * m * 2 ^ e\<close>: \<open>3.5\<close> is \<open>7 * 2 ^ -1\<close> and \<open>2.5\<close> is
  \<open>5 * 2 ^ -1\<close>.
\<close>

definition dyadic :: "bool \<Rightarrow> nat \<Rightarrow> int \<Rightarrow> pyfloat" where
  "dyadic s m e = Finite s (m * 2 ^ nat (1074 + e))"

text \<open>
  The driver as a function of the world. Each call of \<open>add\<close> is evaluated before the
  line that shows it is printed, and an exception ends the run with what was printed
  before it. The calls are recorded, in order, in a trace beside the world: the trace
  is an observation of the run, not a variable of the program.
\<close>

record run =
  world_of :: world
  calls :: "(pyobj \<times> pyobj) list"

definition call_add :: "run \<Rightarrow> pyobj \<Rightarrow> pyobj \<Rightarrow> (pyerror + pyobj) \<times> run" where
  "call_add r a b =
     (case add (world_of r) a b of
        (res, w') \<Rightarrow> (res, \<lparr>world_of = w', calls = calls r @ [(a, b)]\<rparr>))"

definition say :: "run \<Rightarrow> string \<Rightarrow> run" where
  "say r s = r\<lparr>world_of := py_print (world_of r) s\<rparr>"

definition main :: "runtime \<Rightarrow> run \<Rightarrow> pyerror option \<times> run" where
  "main rt r0 =
     (let num1 = PyInt 5; num2 = PyInt 3 in
      case call_add r0 num1 num2 of
        (Inl e, r1) \<Rightarrow> (Some e, r1)
      | (Inr result, r1) \<Rightarrow>
          (let r2 = say r1 (py_str rt (world_of r1) num1 @ '' + '' @ py_str rt (world_of r1) num2
                            @ '' = '' @ py_str rt (world_of r1) result) in
           case call_add r2 (PyInt 10) (PyInt 20) of
             (Inl e, r3) \<Rightarrow> (Some e, r3)
           | (Inr v2, r3) \<Rightarrow>
               (let r4 = say r3 (''10 + 20 = '' @ py_str rt (world_of r3) v2) in
                case call_add r4 (PyFloat (dyadic False 7 (- 1))) (PyFloat (dyadic False 5 (- 1))) of
                  (Inl e, r5) \<Rightarrow> (Some e, r5)
                | (Inr v3, r5) \<Rightarrow>
                    (let r6 = say r5 (''3.5 + 2.5 = '' @ py_str rt (world_of r5) v3) in
                     case call_add r6 (PyInt (- 5)) (PyInt 15) of
                       (Inl e, r7) \<Rightarrow> (Some e, r7)
                     | (Inr v4, r7) \<Rightarrow>
                         (None, say r7 (''-5 + 15 = '' @ py_str rt (world_of r7) v4))))))"

text \<open>
  \<^verbatim>\<open>if __name__ == "__main__":\<close> The module body after the definition of \<open>add\<close>,
  as a function of the value of \<open>__name__\<close>: \<open>__main__\<close> when the file is executed,
  the module's name when it is imported.
\<close>

definition run_module :: "string \<Rightarrow> runtime \<Rightarrow> run \<Rightarrow> pyerror option \<times> run" where
  "run_module name rt r = (if name = ''__main__'' then main rt r else (None, r))"

text \<open>The text of a sequence of lines, each ended by a newline.\<close>

definition lines_text :: "string list \<Rightarrow> string" where
  "lines_text ls = concat (map (\<lambda>l. l @ [CHR 0x0A]) ls)"

subsection \<open>Notions of the specification\<close>

text \<open>
  A numeric value: an \<open>int\<close> or a \<open>float\<close>; a \<open>bool\<close> is an \<open>int\<close> (its class is a
  subclass of \<open>int\<close>).
\<close>

definition is_number :: "pyobj \<Rightarrow> bool" where
  "is_number v = (case v of PyBool b \<Rightarrow> True | PyInt n \<Rightarrow> True | PyFloat x \<Rightarrow> True | _ \<Rightarrow> False)"

definition is_str :: "pyobj \<Rightarrow> bool" where
  "is_str v = (case v of PyStr s \<Rightarrow> True | _ \<Rightarrow> False)"

definition is_list :: "pyobj \<Rightarrow> bool" where
  "is_list v = (case v of PyList p \<Rightarrow> True | _ \<Rightarrow> False)"

text \<open>
  The pairs of operands of the built-in types that support \<open>+\<close>: two numbers, two
  strings, two lists.
\<close>

definition supports_add :: "pyobj \<Rightarrow> pyobj \<Rightarrow> bool" where
  "supports_add a b \<longleftrightarrow>
     is_number a \<and> is_number b \<or> is_str a \<and> is_str b \<or> is_list a \<and> is_list b"

text \<open>
  A value of the program: \<open>Finite s m\<close> is a \<open>float\<close> only for the magnitudes of
  binary64 numbers.
\<close>

definition well_formed :: "pyobj \<Rightarrow> bool" where
  "well_formed v = (case v of PyFloat x \<Rightarrow> is_double x | _ \<Rightarrow> True)"

text \<open>
  What it means that the \<open>float\<close> \<open>x\<close> is the exact value \<open>v\<close> (in units of
  \<open>2 ^ -1074\<close>) with standard rounding, to nearest and ties to even. A finite \<open>x\<close> is a
  binary64 number with the sign of \<open>v\<close>; no magnitude of 53 significant bits is nearer
  to \<open>v\<close>; and when another one is as near, the significand of \<open>x\<close> is even: \<open>x\<close> is a
  multiple of twice the spacing of such magnitudes at \<open>v\<close>. An infinite \<open>x\<close> has the
  sign of \<open>v\<close>, and \<open>v\<close> is at least half-way between the largest binary64 number and
  \<open>2 ^ 1024\<close>.
\<close>

definition correctly_rounded :: "int \<Rightarrow> pyfloat \<Rightarrow> bool" where
  "correctly_rounded v x \<longleftrightarrow>
     (case x of
        Finite s m \<Rightarrow>
          fits53 m \<and> m < 2 ^ 2098 \<and> (v \<noteq> 0 \<longrightarrow> s = (v < 0))
          \<and> (\<forall>z. fits53 z \<longrightarrow> \<bar>int m - \<bar>v\<bar>\<bar> \<le> \<bar>int z - \<bar>v\<bar>\<bar>)
          \<and> (\<forall>z. fits53 z \<and> z \<noteq> m \<and> \<bar>int z - \<bar>v\<bar>\<bar> = \<bar>int m - \<bar>v\<bar>\<bar>
                 \<longrightarrow> 2 * 2 ^ (bit_length (nat \<bar>v\<bar>) - 53) dvd m)
      | Infinity s \<Rightarrow> s = (v < 0) \<and> 2 ^ 2098 - 2 ^ 2044 \<le> \<bar>v\<bar>
      | NaN \<Rightarrow> False)"

text \<open>
  The value of \<open>r == x\<close> for the outcome \<open>r\<close> of a call: \<open>None\<close> when the call raised,
  and no comparison takes place.
\<close>

definition result_equals :: "(pyerror + pyobj) \<times> world \<Rightarrow> pyobj \<Rightarrow> bool option" where
  "result_equals r x = (case fst r of Inl e \<Rightarrow> None | Inr v \<Rightarrow> py_eq v x)"

text \<open>The value of \<open>r1 == r2\<close> for the outcomes of two calls.\<close>

definition results_equal ::
  "(pyerror + pyobj) \<times> world \<Rightarrow> (pyerror + pyobj) \<times> world \<Rightarrow> bool option" where
  "results_equal r1 r2 = (case fst r2 of Inl e \<Rightarrow> None | Inr v \<Rightarrow> result_equals r1 v)"

text \<open>
  The class \<open>object\<close>: it has no addition method and no concatenation.
\<close>

definition plain_class :: pyclass where
  "plain_class =
     \<lparr>class_name = ''object'',
      nb_add = (\<lambda>st a b. (NotImplemented, st)),
      nb_radd = (\<lambda>st a b. (NotImplemented, st)),
      sq_concat = None,
      reflected_first = (\<lambda>a. False)\<rparr>"

text \<open>A world with no objects and nothing printed, and a run that starts in it.\<close>

definition empty_world :: world where
  "empty_world =
     \<lparr>heap = (\<lambda>p. []), next_addr = 0, stdout = [], classes = (\<lambda>c. plain_class)\<rparr>"

definition fresh_run :: run where
  "fresh_run = \<lparr>world_of = empty_world, calls = []\<rparr>"

text \<open>
  The least magnitude of an \<open>int\<close> that does not convert to a \<open>float\<close>: half-way
  between the largest binary64 number and \<open>2 ^ 1024\<close>.
\<close>

definition float_int_limit :: int where
  "float_int_limit = 2 ^ 1024 - 2 ^ 970"




text \<open>
  A method has no side effect when the store after it differs from the store before
  it at most by newly allocated objects: standard output and every object that
  existed are as before. A class is quiet when its addition methods and its
  concatenation have no side effect, and the operands are quiet when the classes of
  those that are instances are.
\<close>

definition store_preserved :: "store \<Rightarrow> store \<Rightarrow> bool" where
  "store_preserved st st' \<longleftrightarrow>
     (case (st, st') of
        ((h, n, s), (h', n', s')) \<Rightarrow> s' = s \<and> n \<le> n' \<and> (\<forall>p. p < n \<longrightarrow> h' p = h p))"

definition world_preserved :: "world \<Rightarrow> world \<Rightarrow> bool" where
  "world_preserved w w' \<longleftrightarrow> store_preserved (store_of w) (store_of w') \<and> classes w' = classes w"

definition quiet_class :: "pyclass \<Rightarrow> bool" where
  "quiet_class cls \<longleftrightarrow>
     (\<forall>st a b. store_preserved st (snd (nb_add cls st a b))
              \<and> store_preserved st (snd (nb_radd cls st a b)))
     \<and> (\<forall>f st a b. sq_concat cls = Some f \<longrightarrow> store_preserved st (snd (f st a b)))"






text \<open>A runtime whose renderings print nothing: any runtime will do below.\<close>

definition blank_runtime :: runtime where
  "blank_runtime =
     \<lparr>repr_list = (\<lambda>h p. []), str_object = (\<lambda>h c p. []), repr_shortest = (\<lambda>s m. [])\<rparr>"

section \<open>Lemmas on binary digits and rounding\<close>

lemma bit_length_0 [simp]: "bit_length 0 = 0"
  by (simp add: bit_length.simps)

lemma bit_length_pos: "0 < n \<Longrightarrow> 0 < bit_length n"
  by (subst bit_length.simps) simp

lemma bit_length_upper: "n < 2 ^ bit_length n"
proof (induction n rule: bit_length.induct)
  case (1 n)
  show ?case
  proof (cases "n = 0")
    case True
    then show ?thesis by simp
  next
    case False
    with 1 have "n div 2 < 2 ^ bit_length (n div 2)" by simp
    then have "n < 2 * 2 ^ bit_length (n div 2)" by linarith
    with False show ?thesis by (subst bit_length.simps) simp
  qed
qed

lemma bit_length_lower: "0 < n \<Longrightarrow> 2 ^ (bit_length n - 1) \<le> n"
proof (induction n rule: bit_length.induct)
  case (1 n)
  show ?case
  proof (cases "n div 2 = 0")
    case True
    with 1(2) have "bit_length n = 1"
      by (subst bit_length.simps) simp
    with 1(2) show ?thesis by simp
  next
    case False
    have nz: "n \<noteq> 0" using 1(2) by simp
    have hpos: "0 < n div 2" using False by simp
    have ih: "2 ^ (bit_length (n div 2) - 1) \<le> n div 2"
      by (rule 1(1) [OF nz hpos])
    from False have pos: "0 < bit_length (n div 2)" by (simp add: bit_length_pos)
    have "bit_length n = Suc (bit_length (n div 2))"
      using 1(2) by (subst bit_length.simps) simp
    then have "(2::nat) ^ (bit_length n - 1) = 2 * 2 ^ (bit_length (n div 2) - 1)"
      using pos by (cases "bit_length (n div 2)") simp_all
    with ih show ?thesis by linarith
  qed
qed

lemma bit_length_le_iff: "bit_length n \<le> k \<longleftrightarrow> n < 2 ^ k"
proof
  assume "bit_length n \<le> k"
  then have "(2::nat) ^ bit_length n \<le> 2 ^ k" by (simp add: power_increasing)
  with bit_length_upper [of n] show "n < 2 ^ k" by linarith
next
  assume lt: "n < 2 ^ k"
  show "bit_length n \<le> k"
  proof (cases "n = 0")
    case True
    then show ?thesis by simp
  next
    case False
    then have "2 ^ (bit_length n - 1) \<le> n" using bit_length_lower [of n] by simp
    with lt have "(2::nat) ^ (bit_length n - 1) < 2 ^ k" by linarith
    then have "bit_length n - 1 < k" by simp
    then show ?thesis by linarith
  qed
qed

lemma bit_length_eqI: "2 ^ k \<le> n \<Longrightarrow> n < 2 ^ Suc k \<Longrightarrow> bit_length n = Suc k"
proof -
  assume lo: "2 ^ k \<le> n" and hi: "n < 2 ^ Suc k"
  from hi have "bit_length n \<le> Suc k" by (simp only: bit_length_le_iff)
  moreover have "\<not> bit_length n \<le> k"
    using lo by (simp add: bit_length_le_iff)
  ultimately show ?thesis by linarith
qed

lemma bit_length_shift: "0 < n \<Longrightarrow> bit_length (n * 2 ^ k) = bit_length n + k"
proof -
  assume pos: "0 < n"
  then obtain j where j: "bit_length n = Suc j"
    using bit_length_pos [of n] by (cases "bit_length n") simp_all
  from pos have "2 ^ j \<le> n" using bit_length_lower [of n] j by simp
  then have lo: "2 ^ (j + k) \<le> n * 2 ^ k" by (simp add: power_add)
  have "n < 2 ^ Suc j" using bit_length_upper [of n] j by simp
  then have "n * 2 ^ k < 2 ^ Suc j * 2 ^ k" by simp
  then have hi: "n * 2 ^ k < 2 ^ Suc (j + k)" by (simp add: power_add)
  from lo hi have "bit_length (n * 2 ^ k) = Suc (j + k)" by (rule bit_length_eqI)
  with j show ?thesis by simp
qed


lemma round_small: "bit_length n \<le> 53 \<Longrightarrow> round_half_even n = n"
  by (simp add: round_half_even_def)

lemma round_fits: "fits53 n \<Longrightarrow> round_half_even n = n"
proof (cases "bit_length n \<le> 53")
  case True
  then show ?thesis by (rule round_small)
next
  case False
  assume "fits53 n"
  with False have d: "2 ^ (bit_length n - 53) dvd n" by (simp add: fits53_def)
  then have "n mod 2 ^ (bit_length n - 53) = 0" by simp
  with False d show ?thesis
    by (simp add: round_half_even_def Let_def)
qed

text \<open>The pieces of a magnitude that needs rounding.\<close>

lemma round_parts:
  assumes "\<not> bit_length n \<le> 53"
  defines "sh \<equiv> bit_length n - 53"
  shows "2 ^ 52 \<le> n div 2 ^ sh" and "n div 2 ^ sh < 2 ^ 53"
proof -
  from assms(1) have pos: "0 < n" by (cases "n = 0") simp_all
  have b: "bit_length n = sh + 53" using assms(1) by (simp add: sh_def)
  have "2 ^ (bit_length n - 1) \<le> n" using pos by (rule bit_length_lower)
  then have "2 ^ 52 * 2 ^ sh \<le> n" by (simp add: b power_add mult.commute)
  then show "2 ^ 52 \<le> n div 2 ^ sh"
    by (simp add: less_eq_div_iff_mult_less_eq)
  have "n < 2 ^ bit_length n" by (rule bit_length_upper)
  then have "n < 2 ^ 53 * 2 ^ sh" by (simp add: b power_add mult.commute)
  then show "n div 2 ^ sh < 2 ^ 53"
    by (simp add: less_mult_imp_div_less)
qed

lemma round_unfold:
  assumes "\<not> bit_length n \<le> 53"
  shows "round_half_even n =
    (if 2 ^ (bit_length n - 53) < 2 * (n mod 2 ^ (bit_length n - 53))
        \<or> (2 * (n mod 2 ^ (bit_length n - 53)) = 2 ^ (bit_length n - 53)
            \<and> odd (n div 2 ^ (bit_length n - 53)))
     then n div 2 ^ (bit_length n - 53) + 1 else n div 2 ^ (bit_length n - 53))
    * 2 ^ (bit_length n - 53)"
  using assms by (simp add: round_half_even_def Let_def)

lemma fits53_shift: "fits53 m \<Longrightarrow> fits53 (m * 2 ^ k)"
proof (cases "m = 0")
  case True
  then show ?thesis by (simp add: fits53_def)
next
  case False
  assume f: "fits53 m"
  from False have bl: "bit_length (m * 2 ^ k) = bit_length m + k"
    by (simp add: bit_length_shift)
  show ?thesis
  proof (cases "bit_length m \<le> 53")
    case True
    then have "bit_length m + k - 53 \<le> k" by simp
    then have "(2::nat) ^ (bit_length m + k - 53) dvd 2 ^ k" by (rule le_imp_power_dvd)
    then have "2 ^ (bit_length m + k - 53) dvd m * 2 ^ k" by (rule dvd_mult)
    then show ?thesis by (simp add: fits53_def bl)
  next
    case False
    with f have "2 ^ (bit_length m - 53) dvd m" by (simp add: fits53_def)
    then have "2 ^ (bit_length m - 53) * 2 ^ k dvd m * 2 ^ k" by (rule mult_dvd_mono) simp
    moreover have "bit_length m + k - 53 = bit_length m - 53 + k" using False by simp
    ultimately have "2 ^ (bit_length m + k - 53) dvd m * 2 ^ k" by (simp add: power_add)
    then show ?thesis by (simp add: fits53_def bl)
  qed
qed

lemma fits53_le: "m \<le> 2 ^ 53 \<Longrightarrow> fits53 m"
proof (cases "m = 2 ^ 53")
  case True
  have "bit_length ((2::nat) ^ 53) = Suc 53" by (rule bit_length_eqI) simp_all
  with True show ?thesis by (simp add: fits53_def)
next
  case False
  assume "m \<le> 2 ^ 53"
  with False have "m < 2 ^ 53" by simp
  then have "bit_length m \<le> 53" by (simp only: bit_length_le_iff)
  then show ?thesis by (simp add: fits53_def)
qed

lemma round_shape:
  assumes "\<not> bit_length n \<le> 53"
  obtains q' where "round_half_even n = q' * 2 ^ (bit_length n - 53)"
    and "n div 2 ^ (bit_length n - 53) \<le> q'" and "q' \<le> 2 ^ 53"
proof -
  let ?q = "n div 2 ^ (bit_length n - 53)"
  from round_parts(2) [OF assms] have q: "?q + 1 \<le> 2 ^ 53" by simp
  show thesis
  proof (cases "2 ^ (bit_length n - 53) < 2 * (n mod 2 ^ (bit_length n - 53))
        \<or> (2 * (n mod 2 ^ (bit_length n - 53)) = 2 ^ (bit_length n - 53) \<and> odd ?q)")
    case True
    then have "round_half_even n = (?q + 1) * 2 ^ (bit_length n - 53)"
      by (simp only: round_unfold [OF assms] if_True)
    with q show ?thesis by (intro that [of "?q + 1"]) simp_all
  next
    case False
    then have "round_half_even n = ?q * 2 ^ (bit_length n - 53)"
      by (simp only: round_unfold [OF assms] if_False)
    with q show ?thesis by (intro that [of ?q]) simp_all
  qed
qed

lemma round_half_even_fits53: "fits53 (round_half_even n)"
proof (cases "bit_length n \<le> 53")
  case True
  then show ?thesis by (simp add: round_small fits53_def)
next
  case False
  then obtain q' where "round_half_even n = q' * 2 ^ (bit_length n - 53)" and "q' \<le> 2 ^ 53"
    by (rule round_shape)
  then show ?thesis by (simp only: fits53_shift fits53_le)
qed

lemma round_ge_pow: "2 ^ k \<le> n \<Longrightarrow> 2 ^ k \<le> round_half_even n"
proof (cases "bit_length n \<le> 53")
  case True
  assume "2 ^ k \<le> n"
  with True show ?thesis by (simp add: round_small)
next
  case False
  assume lo: "2 ^ k \<le> n"
  let ?sh = "bit_length n - 53"
  have "\<not> bit_length n \<le> k" using lo by (simp add: bit_length_le_iff)
  then have "k \<le> 52 + ?sh" using False by simp
  then have "(2::nat) ^ k \<le> 2 ^ (52 + ?sh)" by (simp add: power_increasing)
  also have "\<dots> = 2 ^ 52 * 2 ^ ?sh" by (simp add: power_add)
  also have "\<dots> \<le> n div 2 ^ ?sh * 2 ^ ?sh"
    using round_parts(1) [OF False] by simp
  also have "\<dots> \<le> round_half_even n"
  proof -
    obtain q' where "round_half_even n = q' * 2 ^ ?sh" and "n div 2 ^ ?sh \<le> q'"
      using False by (rule round_shape)
    then show ?thesis by simp
  qed
  finally show ?thesis .
qed


lemma round_dist:
  assumes "\<not> bit_length n \<le> 53"
  defines "P \<equiv> (2::nat) ^ (bit_length n - 53)"
  shows "\<bar>int (round_half_even n) - int n\<bar> \<le> int (n mod P)"
    and "\<bar>int (round_half_even n) - int n\<bar> \<le> int P - int (n mod P)"
proof -
  let ?q = "n div P" and ?r = "n mod P"
  have n: "int n = int ?q * int P + int ?r"
    by (metis div_mult_mod_eq of_nat_add of_nat_mult)
  have rP: "int ?r < int P" by (simp add: P_def)
  have "\<bar>int (round_half_even n) - int n\<bar> \<le> int ?r
      \<and> \<bar>int (round_half_even n) - int n\<bar> \<le> int P - int ?r"
  proof (cases "P < 2 * ?r \<or> (2 * ?r = P \<and> odd ?q)")
    case True
    then have "round_half_even n = (?q + 1) * P"
      unfolding P_def by (simp only: round_unfold [OF assms(1)] if_True)
    then have "int (round_half_even n) - int n = int P - int ?r"
      using n by (simp add: algebra_simps)
    moreover from True have "int P \<le> 2 * int ?r" by linarith
    ultimately show ?thesis using rP by linarith
  next
    case False
    then have "round_half_even n = ?q * P"
      unfolding P_def by (simp only: round_unfold [OF assms(1)] if_False)
    then have "int (round_half_even n) - int n = - int ?r"
      using n by (simp add: algebra_simps)
    moreover from False have "2 * int ?r \<le> int P" by linarith
    ultimately show ?thesis by linarith
  qed
  then show "\<bar>int (round_half_even n) - int n\<bar> \<le> int (n mod P)"
    and "\<bar>int (round_half_even n) - int n\<bar> \<le> int P - int (n mod P)"
    by simp_all
qed

lemma fits53_grid:
  assumes "\<not> bit_length n \<le> 53" and "fits53 z"
  defines "P \<equiv> (2::nat) ^ (bit_length n - 53)"
  shows "z \<le> n div P * P \<or> (n div P + 1) * P \<le> z"
proof (cases "z < 2 ^ 52 * P")
  case True
  from round_parts(1) [OF assms(1)] have "2 ^ 52 * P \<le> n div P * P"
    unfolding P_def by simp
  with True show ?thesis by linarith
next
  case False
  then have "2 ^ (52 + (bit_length n - 53)) \<le> z" by (simp add: P_def power_add)
  then have "\<not> bit_length z \<le> 52 + (bit_length n - 53)"
    by (simp add: bit_length_le_iff)
  then have big: "bit_length n - 53 \<le> bit_length z - 53" and "\<not> bit_length z \<le> 53"
    using assms(1) by simp_all
  with assms(2) have "2 ^ (bit_length z - 53) dvd z" by (simp add: fits53_def)
  moreover from big have "P dvd 2 ^ (bit_length z - 53)"
    unfolding P_def by (rule le_imp_power_dvd)
  ultimately have "P dvd z" by (rule dvd_trans [rotated])
  then obtain j where "z = P * j" unfolding dvd_def by blast
  then have j: "z = j * P" by (simp add: mult.commute)
  show ?thesis
  proof (cases "j \<le> n div P")
    case True
    then show ?thesis by (simp add: j)
  next
    case False
    then have "n div P + 1 \<le> j" by simp
    then have "(n div P + 1) * P \<le> j * P" by (rule mult_le_mono1)
    then show ?thesis by (simp add: j)
  qed
qed

lemma round_nearest:
  assumes "fits53 z"
  shows "\<bar>int (round_half_even n) - int n\<bar> \<le> \<bar>int z - int n\<bar>"
proof (cases "bit_length n \<le> 53")
  case True
  then show ?thesis by (simp add: round_small)
next
  case False
  let ?P = "(2::nat) ^ (bit_length n - 53)"
  have n: "int n = int (n div ?P * ?P) + int (n mod ?P)"
    by (metis div_mult_mod_eq of_nat_add)
  from fits53_grid [OF False assms]
  show ?thesis
  proof
    assume "z \<le> n div ?P * ?P"
    then have "int z \<le> int (n div ?P * ?P)" by (simp only: of_nat_le_iff)
    with n have "int (n mod ?P) \<le> \<bar>int z - int n\<bar>" by linarith
    with round_dist(1) [OF False] show ?thesis by linarith
  next
    assume "(n div ?P + 1) * ?P \<le> z"
    then have "int ((n div ?P + 1) * ?P) \<le> int z" by (simp only: of_nat_le_iff)
    moreover have "int ((n div ?P + 1) * ?P) = int (n div ?P * ?P) + int ?P"
      by (simp add: algebra_simps)
    ultimately have "int ?P - int (n mod ?P) \<le> \<bar>int z - int n\<bar>"
      using n by linarith
    with round_dist(2) [OF False] show ?thesis by linarith
  qed
qed

subsection \<open>Ties go to the even significand\<close>


lemma even_times_dvd: "even q \<Longrightarrow> 2 * P dvd q * (P::nat)"
  by (auto simp add: dvd_def)

lemma round_tie_even:
  assumes "fits53 z" and "z \<noteq> round_half_even n"
    and "\<bar>int z - int n\<bar> = \<bar>int (round_half_even n) - int n\<bar>"
  shows "2 * 2 ^ (bit_length n - 53) dvd round_half_even n"
proof (cases "bit_length n \<le> 53")
  case True
  then have "round_half_even n = n" by (rule round_small)
  with assms(2,3) show ?thesis by simp
next
  case False
  define P where "P = (2::nat) ^ (bit_length n - 53)"
  define q where "q = n div P"
  define r where "r = n mod P"
  have n: "int n = int q * int P + int r"
    unfolding q_def r_def by (metis div_mult_mod_eq of_nat_add of_nat_mult)
  have rP: "int r < int P" unfolding r_def P_def by simp
  have grid: "z \<le> q * P \<or> (q + 1) * P \<le> z"
    using fits53_grid [OF False assms(1)] unfolding P_def q_def .
  have zle: "int z \<le> int q * int P" if "z \<le> q * P"
    using that by (metis of_nat_le_iff of_nat_mult)
  have zge: "(int q + 1) * int P \<le> int z" if "(q + 1) * P \<le> z"
    using that by (metis of_nat_le_iff of_nat_mult of_nat_add of_nat_1)
  show ?thesis
  proof (cases "P < 2 * r \<or> (2 * r = P \<and> odd q)")
    case True
    then have R: "round_half_even n = (q + 1) * P"
      unfolding P_def q_def r_def by (simp only: round_unfold [OF False] if_True)
    then have Ri: "int (round_half_even n) = (int q + 1) * int P"
      by (metis of_nat_mult of_nat_add of_nat_1)
    have d: "\<bar>int z - int n\<bar> = int P - int r"
      using assms(3) n rP by (simp add: Ri algebra_simps)
    from grid show ?thesis
    proof
      assume "(q + 1) * P \<le> z"
      then have "(int q + 1) * int P \<le> int z" by (rule zge)
      with d n have "int z = (int q + 1) * int P" by (simp add: algebra_simps)
      with Ri assms(2) show ?thesis by simp
    next
      assume "z \<le> q * P"
      then have "int z \<le> int q * int P" by (rule zle)
      with d n have "2 * int r \<le> int P" by (simp add: algebra_simps)
      then have "2 * r \<le> P" by linarith
      with True have "odd q" by linarith
      then have "even (q + 1)" by simp
      then show ?thesis unfolding R P_def [symmetric] by (rule even_times_dvd)
    qed
  next
    case False2: False
    then have R: "round_half_even n = q * P"
      unfolding P_def q_def r_def by (simp only: round_unfold [OF False] if_False)
    then have Ri: "int (round_half_even n) = int q * int P" by (metis of_nat_mult)
    have d: "\<bar>int z - int n\<bar> = int r"
      using assms(3) n by (simp add: Ri)
    from grid show ?thesis
    proof
      assume "z \<le> q * P"
      then have "int z \<le> int q * int P" by (rule zle)
      with d n have "int z = int q * int P" by (simp add: algebra_simps)
      with Ri assms(2) show ?thesis by simp
    next
      assume "(q + 1) * P \<le> z"
      then have "(int q + 1) * int P \<le> int z" by (rule zge)
      with d n have "int P \<le> 2 * int r" by (simp add: algebra_simps)
      then have "P \<le> 2 * r" by linarith
      with False2 have "even q" by linarith
      then show ?thesis unfolding R P_def [symmetric] by (rule even_times_dvd)
    qed
  qed
qed

subsection \<open>The overflow threshold\<close>


lemma twice_le: "a \<le> r \<Longrightarrow> a \<le> p - r \<Longrightarrow> 2 * a \<le> (p::int)"
  by linarith

lemma near_bound: "2 * \<bar>R - n\<bar> \<le> P \<Longrightarrow> P \<le> 2 * h \<Longrightarrow> n + h < T \<Longrightarrow> R < (T::int)"
  by arith

lemma round_lt_overflow:
  assumes "n < 2 ^ 2098 - 2 ^ 2044"
  shows "round_half_even n < 2 ^ 2098"
proof (cases "bit_length n \<le> 53")
  case True
  with assms show ?thesis by (simp add: round_small)
next
  case False
  let ?P = "(2::nat) ^ (bit_length n - 53)"
  from assms have "n < 2 ^ 2098" by simp
  then have "bit_length n \<le> 2098" by (simp only: bit_length_le_iff)
  then have "bit_length n - 53 \<le> 2045" by simp
  then have "?P \<le> 2 ^ 2045" by (rule power_increasing) simp
  then have "int ?P \<le> int (2 ^ 2045)" by (simp only: of_nat_le_iff)
  then have P: "int ?P \<le> 2 * 2 ^ 2044" by simp
  have d: "2 * \<bar>int (round_half_even n) - int n\<bar> \<le> int ?P"
    by (rule twice_le [OF round_dist [OF False]])
  from assms have "n + 2 ^ 2044 < 2 ^ 2098" by (simp add: less_diff_conv)
  then have "int (n + 2 ^ 2044) < int (2 ^ 2098)" by (simp only: of_nat_less_iff)
  then have b: "int n + 2 ^ 2044 < 2 ^ 2098" by simp
  have "int (round_half_even n) < 2 ^ 2098" by (rule near_bound [OF d P b])
  then have "int (round_half_even n) < int (2 ^ 2098)" by simp
  then show ?thesis by (simp only: of_nat_less_iff)
qed

lemma mod_lower: "q * P + h \<le> n \<Longrightarrow> n = q * P + r \<Longrightarrow> h \<le> (r::nat)"
  by linarith

lemma round_ge_overflow:
  assumes "2 ^ 2098 - 2 ^ 2044 \<le> n"
  shows "2 ^ 2098 \<le> round_half_even n"
proof (cases "2 ^ 2098 \<le> n")
  case True
  then show ?thesis by (rule round_ge_pow)
next
  case False
  then have hi: "n < 2 ^ Suc 2097" by simp
  from assms have lo: "2 ^ 2097 \<le> n" by simp
  from lo hi have bl: "bit_length n = Suc 2097" by (rule bit_length_eqI)
  then have big: "\<not> bit_length n \<le> 53" and sh: "bit_length n - 53 = 2045" by simp_all
  let ?P = "(2::nat) ^ 2045"
  from assms have a: "(2 ^ 53 - 1) * ?P + 2 ^ 2044 \<le> n" by simp
  have "(2 ^ 53 - 1) * ?P \<le> (2 ^ 53 - 1) * ?P + 2 ^ 2044" by (rule le_add1)
  with a have "(2 ^ 53 - 1) * ?P \<le> n" by (rule order_trans [rotated])
  then have "2 ^ 53 - 1 \<le> n div ?P"
    by (simp only: less_eq_div_iff_mult_less_eq [OF zero_less_power [OF zero_less_numeral]])
  moreover from round_parts(2) [OF big] have "n div ?P < 2 ^ 53" by (simp only: sh)
  ultimately have q: "n div ?P = 2 ^ 53 - 1" by simp
  have "n = n div ?P * ?P + n mod ?P" by simp
  then have n: "n = (2 ^ 53 - 1) * ?P + n mod ?P" by (simp only: q)
  have r: "2 ^ 2044 \<le> n mod ?P" by (rule mod_lower [OF a n])
  have oq: "odd (n div ?P)" by (simp only: q) simp
  have "2 * 2 ^ 2044 \<le> 2 * (n mod ?P)" using r by (simp only: mult_le_mono2)
  then have "?P \<le> 2 * (n mod ?P)" by simp
  then have "?P < 2 * (n mod ?P) \<or> 2 * (n mod ?P) = ?P" by (rule le_imp_less_or_eq [THEN disjE]) auto
  with oq have c: "?P < 2 * (n mod ?P) \<or> (2 * (n mod ?P) = ?P \<and> odd (n div ?P))"
    by blast
  have "round_half_even n = (n div ?P + 1) * ?P"
    using c by (simp only: round_unfold [OF big] sh if_True)
  also have "\<dots> = 2 ^ 2098" by (simp only: q) simp
  finally show ?thesis by simp
qed

lemma round_overflow_iff: "2 ^ 2098 \<le> round_half_even n \<longleftrightarrow> 2 ^ 2098 - 2 ^ 2044 \<le> n"
  using round_lt_overflow [of n] round_ge_overflow [of n] by (meson not_le)

subsection \<open>Addition and conversion are correctly rounded\<close>


lemma round_double_correct:
  assumes "v \<noteq> 0"
  shows "correctly_rounded v (round_double v)"
proof (cases "2 ^ 2098 \<le> round_half_even (nat \<bar>v\<bar>)")
  case True
  then have "2 ^ 2098 - 2 ^ 2044 \<le> nat \<bar>v\<bar>" by (simp only: round_overflow_iff)
  then have "int (2 ^ 2098 - 2 ^ 2044) \<le> int (nat \<bar>v\<bar>)" by (simp only: of_nat_le_iff)
  then have "2 ^ 2098 - 2 ^ 2044 \<le> \<bar>v\<bar>" by simp
  with True show ?thesis by (simp add: correctly_rounded_def round_double_def)
next
  case False
  have v: "int (nat \<bar>v\<bar>) = \<bar>v\<bar>" by simp
  have near: "\<bar>int (round_half_even (nat \<bar>v\<bar>)) - \<bar>v\<bar>\<bar> \<le> \<bar>int z - \<bar>v\<bar>\<bar>" if "fits53 z" for z
    using round_nearest [OF that, of "nat \<bar>v\<bar>"] by (simp only: v)
  have tie: "2 * 2 ^ (bit_length (nat \<bar>v\<bar>) - 53) dvd round_half_even (nat \<bar>v\<bar>)"
    if "fits53 z \<and> z \<noteq> round_half_even (nat \<bar>v\<bar>)
        \<and> \<bar>int z - \<bar>v\<bar>\<bar> = \<bar>int (round_half_even (nat \<bar>v\<bar>)) - \<bar>v\<bar>\<bar>" for z
    using that round_tie_even [of z "nat \<bar>v\<bar>"] by (simp only: v) blast
  from False near tie show ?thesis
    by (auto simp add: correctly_rounded_def round_double_def round_half_even_fits53)
qed

lemma fits53_0: "fits53 0"
  by (simp add: fits53_def)

lemma float_add_correct:
  "correctly_rounded (signed s m + signed t k) (float_add (Finite s m) (Finite t k))"
proof (cases "signed s m + signed t k = 0")
  case True
  then show ?thesis by (simp add: correctly_rounded_def fits53_0)
next
  case False
  then show ?thesis by (simp add: round_double_correct)
qed

lemma is_double_round_double: "is_double (round_double v)"
  by (simp add: is_double_def round_double_def Let_def round_half_even_fits53)

lemma is_double_float_add: "is_double (float_add x y)"
  by (cases x; cases y) (simp_all add: is_double_def fits53_0 Let_def is_double_round_double [unfolded is_double_def])

lemma long_as_double_value:
  assumes "long_as_double n = Inr c"
  shows "correctly_rounded (n * 2 ^ 1074) c"
proof -
  let ?N = "nat \<bar>n\<bar> * 2 ^ 1074"
  let ?R = "round_half_even ?N"
  from assms have lt: "\<not> 2 ^ 2098 \<le> ?R" and c: "c = Finite (n < 0) ?R"
    by (auto simp add: long_as_double_def Let_def split: if_splits)
  have abs: "int ?N = \<bar>n * 2 ^ 1074\<bar>"
    by (simp add: abs_mult)
  then have N: "nat \<bar>n * 2 ^ 1074\<bar> = ?N" by (metis nat_int)
  have near: "\<bar>int ?R - \<bar>n * 2 ^ 1074\<bar>\<bar> \<le> \<bar>int z - \<bar>n * 2 ^ 1074\<bar>\<bar>" if "fits53 z" for z
    using round_nearest [OF that, of ?N] by (simp only: abs)
  have tie: "2 * 2 ^ (bit_length (nat \<bar>n * 2 ^ 1074\<bar>) - 53) dvd ?R"
    if "fits53 z \<and> z \<noteq> ?R \<and> \<bar>int z - \<bar>n * 2 ^ 1074\<bar>\<bar> = \<bar>int ?R - \<bar>n * 2 ^ 1074\<bar>\<bar>" for z
    using that round_tie_even [of z ?N] by (simp only: abs N) blast
  have sgn: "(n * 2 ^ 1074 < 0) = (n < 0)" by (simp add: mult_less_0_iff)
  have "fits53 ?R \<and> ?R < 2 ^ 2098 \<and> (n * 2 ^ 1074 \<noteq> 0 \<longrightarrow> (n < 0) = (n * 2 ^ 1074 < 0))
      \<and> (\<forall>z. fits53 z \<longrightarrow> \<bar>int ?R - \<bar>n * 2 ^ 1074\<bar>\<bar> \<le> \<bar>int z - \<bar>n * 2 ^ 1074\<bar>\<bar>)
      \<and> (\<forall>z. fits53 z \<and> z \<noteq> ?R \<and> \<bar>int z - \<bar>n * 2 ^ 1074\<bar>\<bar> = \<bar>int ?R - \<bar>n * 2 ^ 1074\<bar>\<bar>
             \<longrightarrow> 2 * 2 ^ (bit_length (nat \<bar>n * 2 ^ 1074\<bar>) - 53) dvd ?R)"
    using lt near tie sgn round_half_even_fits53 [of ?N] by (auto simp only: not_le)
  then show ?thesis
    unfolding correctly_rounded_def c pyfloat.case .
qed

lemma long_as_double_raises:
  "long_as_double n = Inl e \<longleftrightarrow>
     e = OverflowError ''int too large to convert to float'' \<and> 2 ^ 1024 - 2 ^ 970 \<le> \<bar>n\<bar>"
proof -
  have "(2 ^ 2098 \<le> round_half_even (nat \<bar>n\<bar> * 2 ^ 1074))
      = (2 ^ 2098 - 2 ^ 2044 \<le> nat \<bar>n\<bar> * 2 ^ 1074)"
    by (rule round_overflow_iff)
  also have "(2::nat) ^ 2098 - 2 ^ 2044 = (2 ^ 1024 - 2 ^ 970) * 2 ^ 1074" by simp
  also have "((2 ^ 1024 - 2 ^ 970) * 2 ^ 1074 \<le> nat \<bar>n\<bar> * 2 ^ 1074)
      = ((2::nat) ^ 1024 - 2 ^ 970 \<le> nat \<bar>n\<bar>)"
    by (simp only: mult_le_cancel2) simp
  also have "\<dots> = (int (2 ^ 1024 - 2 ^ 970) \<le> int (nat \<bar>n\<bar>))" by (simp only: of_nat_le_iff)
  also have "\<dots> = (2 ^ 1024 - 2 ^ 970 \<le> \<bar>n\<bar>)" by simp
  finally have key: "(2 ^ 2098 \<le> round_half_even (nat \<bar>n\<bar> * 2 ^ 1074))
      = (2 ^ 1024 - 2 ^ 970 \<le> \<bar>n\<bar>)" .
  show ?thesis
    unfolding long_as_double_def Let_def key by auto
qed

subsection \<open>The values of the driver\<close>


lemma float_add_same_sign:
  assumes "fits53 (m + k)" and "m + k < 2 ^ 2098"
  shows "float_add (Finite s m) (Finite s k) = Finite s (m + k)"
proof (cases "m + k = 0")
  case True
  then show ?thesis by (simp add: signed_def)
next
  case False
  have v: "signed s m + signed s k = (if s then - int (m + k) else int (m + k))"
    by (simp add: signed_def)
  have r: "round_half_even (m + k) = m + k" using assms(1) by (rule round_fits)
  from False assms(2) show ?thesis
    by (simp add: v round_double_def r Let_def del: of_nat_add)
qed

lemma three_and_a_half_plus_two_and_a_half:
  "float_add (dyadic False 7 (- 1)) (dyadic False 5 (- 1)) = dyadic False 6 0"
proof -
  have "fits53 (12 * 2 ^ 1073)" by (rule fits53_shift) (simp add: fits53_le)
  then have f: "fits53 (7 * 2 ^ 1073 + 5 * 2 ^ 1073)" by simp
  have b: "(7::nat) * 2 ^ 1073 + 5 * 2 ^ 1073 < 2 ^ 2098" by simp
  have "float_add (Finite False (7 * 2 ^ 1073)) (Finite False (5 * 2 ^ 1073))
      = Finite False (7 * 2 ^ 1073 + 5 * 2 ^ 1073)"
    using f b by (rule float_add_same_sign)
  then show ?thesis by (simp add: dyadic_def)
qed

lemma str_nat_digit: "n < 10 \<Longrightarrow> str_nat n = [''0123456789'' ! n]"
  by (subst str_nat.simps) simp

lemma str_nat_step: "\<not> n < 10 \<Longrightarrow> str_nat n = str_nat (n div 10) @ [''0123456789'' ! (n mod 10)]"
  by (subst str_nat.simps) simp

lemma str_examples:
  "str_int 5 = ''5''" "str_int 3 = ''3''" "str_int 8 = ''8''" "str_int 30 = ''30''"
  "str_int 10 = ''10''"
  by (simp_all add: str_int_def str_nat_digit str_nat_step)

lemma repr_six: "float_repr rt (dyadic False 6 0) = ''6.0''"
  by (simp add: float_repr_def dyadic_def str_nat_digit)


lemma add_floats: "add w (PyFloat x) (PyFloat y) = (Inr (PyFloat (float_add x y)), w)"
  by (simp add: add_def py_add_def builtin_add_def number_add_def convert_to_double_def)

lemma add_ints: "add w (PyInt x) (PyInt y) = (Inr (PyInt (x + y)), w)"
  by (simp add: add_def py_add_def builtin_add_def number_add_def)

lemma float_eq_six: "float_eq (dyadic False 6 0) (dyadic False 6 0)"
  by (simp add: dyadic_def)

lemma call_add_ints:
  "call_add r (PyInt x) (PyInt y)
     = (Inr (PyInt (x + y)), \<lparr>world_of = world_of r, calls = calls r @ [(PyInt x, PyInt y)]\<rparr>)"
  by (simp add: call_add_def add_ints)

lemma call_add_floats:
  "call_add r (PyFloat x) (PyFloat y)
     = (Inr (PyFloat (float_add x y)),
        \<lparr>world_of = world_of r, calls = calls r @ [(PyFloat x, PyFloat y)]\<rparr>)"
  by (simp add: call_add_def add_floats)

section \<open>Lemmas on \<open>+\<close>\<close>


lemma number_add_Some:
  "is_number a \<Longrightarrow> is_number b \<Longrightarrow> \<exists>r. number_add a b = Some r"
  by (cases a; cases b)
     (auto simp add: is_number_def number_add_def convert_to_double_def
           split: sum.splits option.splits)


lemma is_number_not_object: "is_number a \<Longrightarrow> \<not> is_object a"
  by (cases a) (simp_all add: is_number_def)

lemma supports_add_not_object: "supports_add a b \<Longrightarrow> \<not> is_object a \<and> \<not> is_object b"
  by (cases a; cases b) (simp_all add: supports_add_def is_number_def is_str_def is_list_def)

lemma add_builtin: "\<not> is_object a \<Longrightarrow> \<not> is_object b \<Longrightarrow> add w a b = builtin_add w a b"
  by (simp add: add_def py_add_def)




lemma long_as_double_limit:
  "long_as_double n = Inl e \<longleftrightarrow>
     e = OverflowError ''int too large to convert to float'' \<and> float_int_limit \<le> \<bar>n\<bar>"
  unfolding float_int_limit_def by (rule long_as_double_raises)



lemma float_add_commute: "float_add x y = float_add y x"
  by (cases x; cases y) (auto simp add: add.commute Let_def)

lemma number_add_commute:
  "is_number a \<Longrightarrow> is_number b \<Longrightarrow> number_add a b = number_add b a"
  by (cases a; cases b)
     (auto simp add: is_number_def number_add_def convert_to_double_def float_add_commute
           add.commute split: sum.splits)

lemma add_commute_numbers:
  assumes "is_number a" and "is_number b"
  shows "add w a b = add w b a"
proof -
  obtain r where r: "number_add a b = Some r" using number_add_Some [OF assms] by blast
  then have "number_add b a = Some r" by (simp only: number_add_commute [OF assms])
  with r have "builtin_add w a b = builtin_add w b a" by (simp add: builtin_add_def)
  with assms show ?thesis by (simp add: add_builtin is_number_not_object)
qed

lemma add_number_result:
  assumes "is_number a" and "is_number b" and "fst (add w a b) = Inr v"
  shows "(\<exists>n. v = PyInt n) \<or> (\<exists>x. v = PyFloat x)"
  using assms
  by (cases a; cases b)
     (auto simp add: is_number_def add_def py_add_def builtin_add_def number_add_def convert_to_double_def
           split: sum.splits)

lemma float_eq_refl: "float_eq x x \<longleftrightarrow> x \<noteq> NaN"
  by (cases x) simp_all

lemma py_eq_refl_number:
  "(\<exists>n. v = PyInt n) \<or> (\<exists>x. v = PyFloat x) \<Longrightarrow> v \<noteq> PyFloat NaN \<Longrightarrow> py_eq v v = Some True"
  by (auto simp add: py_eq_def float_eq_refl)

lemma long_as_double_0: "long_as_double 0 = Inr (Finite False 0)"
  by (simp add: long_as_double_def round_small)

lemma float_add_zero:
  assumes "is_double x" and "x \<noteq> NaN"
  shows "float_eq (float_add x (Finite False 0)) x"
proof (cases x)
  case (Finite s m)
  show ?thesis
  proof (cases "m = 0")
    case True
    with Finite show ?thesis by (simp add: signed_def)
  next
    case False
    from assms(1) Finite have f: "fits53 m" and b: "m < 2 ^ 2098" by (simp_all add: is_double_def)
    have "nat \<bar>signed s m\<bar> = m" by (simp add: signed_def)
    then have "round_double (signed s m) = Finite (signed s m < 0) m"
      using b by (simp add: round_double_def round_fits [OF f])
    moreover have "(signed s m < 0) = s" using False by (simp add: signed_def)
    ultimately have rd: "round_double (signed s m) = Finite s m" by simp
    have z: "signed s m + signed False 0 = signed s m" by (simp add: signed_def)
    have nz: "signed s m \<noteq> 0" using False by (simp add: signed_def)
    have "float_add (Finite s m) (Finite False 0) = Finite s m"
      by (simp add: z nz rd)
    with Finite show ?thesis by simp
  qed
next
  case (Infinity s)
  then show ?thesis by simp
next
  case NaN
  with assms(2) show ?thesis by simp
qed

lemma is_double_three_and_a_half: "is_double (dyadic False 7 (- 1))"
proof -
  have "fits53 (7 * 2 ^ 1073)" by (rule fits53_shift) (simp add: fits53_le)
  moreover have "(7::nat) * 2 ^ 1073 < 2 ^ 2098" by simp
  ultimately show ?thesis by (simp add: is_double_def dyadic_def)
qed




lemma long_as_double_returns: "(\<exists>c. long_as_double x = Inr c) \<longleftrightarrow> \<bar>x\<bar> < float_int_limit"
proof -
  have "(\<exists>c. long_as_double x = Inr c) \<longleftrightarrow> \<not> (\<exists>e. long_as_double x = Inl e)"
    by (cases "long_as_double x") simp_all
  also have "\<dots> \<longleftrightarrow> \<not> float_int_limit \<le> \<bar>x\<bar>" by (simp add: long_as_double_limit)
  finally show ?thesis by (simp add: not_le)
qed

lemma add_int_float:
  assumes "as_int a = Some x" and "long_as_double x = Inr c"
  shows "add w a (PyFloat v) = (Inr (PyFloat (float_add c v)), w)"
    and "add w (PyFloat u) a = (Inr (PyFloat (float_add u c)), w)"
  using assms
  by (cases a; simp add: add_def py_add_def builtin_add_def number_add_def convert_to_double_def)+

lemma add_int_like:
  assumes "as_int a = Some x" and "as_int b = Some y"
  shows "add w a b = (Inr (PyInt (x + y)), w)"
  using assms
  by (cases a; cases b) (simp_all add: add_def py_add_def builtin_add_def number_add_def)

lemma add_int_float_error:
  assumes "as_int a = Some x" and "long_as_double x = Inl e"
  shows "add w a (PyFloat v) = (Inl e, w)"
    and "add w (PyFloat u) a = (Inl e, w)"
  using assms
  by (cases a; simp add: add_def py_add_def builtin_add_def number_add_def convert_to_double_def)+

lemma long_as_double_1: "long_as_double 1 = Inr (dyadic False 1 0)"
proof -
  have "fits53 (1 * 2 ^ 1074)" by (rule fits53_shift) (simp add: fits53_le)
  then have "round_half_even (1 * 2 ^ 1074) = 1 * 2 ^ 1074" by (rule round_fits)
  then have r: "round_half_even (nat \<bar>1\<bar> * 2 ^ 1074) = 2 ^ 1074" by simp
  show ?thesis unfolding long_as_double_def Let_def r by (simp add: dyadic_def)
qed

lemma one_plus_two_and_a_half:
  "float_add (dyadic False 1 0) (dyadic False 5 (- 1)) = dyadic False 7 (- 1)"
proof -
  have "fits53 (7 * 2 ^ 1073)" by (rule fits53_shift) (simp add: fits53_le)
  then have f: "fits53 (2 ^ 1074 + 5 * 2 ^ 1073)" by simp
  have b: "(2::nat) ^ 1074 + 5 * 2 ^ 1073 < 2 ^ 2098" by simp
  have "float_add (Finite False (2 ^ 1074)) (Finite False (5 * 2 ^ 1073))
      = Finite False (2 ^ 1074 + 5 * 2 ^ 1073)"
    using f b by (rule float_add_same_sign)
  then show ?thesis by (simp add: dyadic_def)
qed

lemma add_two_pow_1024:
  "add w (PyInt (2 ^ 1024)) (PyFloat v)
     = (Inl (OverflowError ''int too large to convert to float''), w)"
proof -
  have "float_int_limit \<le> \<bar>2 ^ 1024\<bar>" by (simp add: float_int_limit_def)
  then have "long_as_double (2 ^ 1024) = Inl (OverflowError ''int too large to convert to float'')"
    by (simp only: long_as_double_limit)
  moreover have "as_int (PyInt (2 ^ 1024)) = Some (2 ^ 1024)" by (rule as_int.simps)
  ultimately show ?thesis by (rule add_int_float_error(1) [rotated])
qed

subsection \<open>Instances of other classes\<close>

lemma classes_with_store [simp]: "classes (with_store w st) = classes w"
  by (cases st) (simp add: with_store_def)

lemma with_store_of [simp]: "with_store w (store_of w) = w"
  by (simp add: with_store_def store_of_def)














subsection \<open>What a call leaves as it was\<close>

lemma store_of_with_store [simp]: "store_of (with_store w st) = st"
  by (cases st) (simp add: with_store_def store_of_def)

lemma world_preserved_refl [simp]: "world_preserved w w"
  by (simp add: world_preserved_def store_preserved_def store_of_def)










lemma quiet_plain_class: "quiet_class plain_class"
  by (simp add: quiet_class_def plain_class_def store_preserved_def split: prod.splits)


section \<open>The function \<open>add\<close>\<close>

text \<open>
  Claim C1, as amended. For operands that are each an \<open>int\<close> (or \<open>bool\<close>) or a \<open>float\<close>,
  \<open>add\<close> returns the sum and changes nothing: the exact integer sum when both are
  integers; the binary64 sum when both are floats; and for an integer with a float,
  the integer is first converted to the nearest float and the result is a float,
  provided the magnitude of the integer is below \<open>2 ^ 1024 - 2 ^ 970\<close> (exactly then the
  conversion succeeds; otherwise the call raises \<open>OverflowError\<close>). The floating-point
  results are correctly rounded: a finite result is the binary64 number nearest to the
  exact value, with ties to the even significand; an infinite result arises only when
  the exact value reaches the overflow threshold; and every result is a binary64 number.
\<close>

theorem add_numeric:
  "(as_int a = Some x \<and> as_int b = Some y \<longrightarrow> add w a b = (Inr (PyInt (x + y)), w))
   \<and> add w (PyFloat u) (PyFloat v) = (Inr (PyFloat (float_add u v)), w)
   \<and> (as_int a = Some x \<and> long_as_double x = Inr c \<longrightarrow>
         add w a (PyFloat v) = (Inr (PyFloat (float_add c v)), w)
       \<and> add w (PyFloat u) a = (Inr (PyFloat (float_add u c)), w)
       \<and> correctly_rounded (x * 2 ^ 1074) c)
   \<and> ((\<exists>c. long_as_double x = Inr c) \<longleftrightarrow> \<bar>x\<bar> < float_int_limit)
   \<and> (as_int a = Some x \<and> float_int_limit \<le> \<bar>x\<bar> \<longrightarrow>
         add w a (PyFloat v) = (Inl (OverflowError ''int too large to convert to float''), w)
       \<and> add w (PyFloat u) a = (Inl (OverflowError ''int too large to convert to float''), w))
   \<and> (u = Finite s m \<and> v = Finite t k \<longrightarrow>
         correctly_rounded (signed s m + signed t k) (float_add u v))
   \<and> is_double (float_add u v)"
proof (intro conjI impI)
  show "add w a b = (Inr (PyInt (x + y)), w)" if "as_int a = Some x \<and> as_int b = Some y"
    using that by (blast intro: add_int_like)
  show "add w (PyFloat u) (PyFloat v) = (Inr (PyFloat (float_add u v)), w)"
    by (rule add_floats)
  show "add w a (PyFloat v) = (Inr (PyFloat (float_add c v)), w)"
    if "as_int a = Some x \<and> long_as_double x = Inr c"
    using that by (blast intro: add_int_float)
  show "add w (PyFloat u) a = (Inr (PyFloat (float_add u c)), w)"
    if "as_int a = Some x \<and> long_as_double x = Inr c"
    using that by (blast intro: add_int_float)
  show "correctly_rounded (x * 2 ^ 1074) c" if "as_int a = Some x \<and> long_as_double x = Inr c"
    using that by (blast intro: long_as_double_value)
  show "(\<exists>c. long_as_double x = Inr c) \<longleftrightarrow> \<bar>x\<bar> < float_int_limit"
    by (rule long_as_double_returns)
  show "add w a (PyFloat v) = (Inl (OverflowError ''int too large to convert to float''), w)"
    if "as_int a = Some x \<and> float_int_limit \<le> \<bar>x\<bar>"
    using that by (blast intro: add_int_float_error long_as_double_limit [THEN iffD2])
  show "add w (PyFloat u) a = (Inl (OverflowError ''int too large to convert to float''), w)"
    if "as_int a = Some x \<and> float_int_limit \<le> \<bar>x\<bar>"
    using that by (blast intro: add_int_float_error long_as_double_limit [THEN iffD2])
  show "correctly_rounded (signed s m + signed t k) (float_add u v)"
    if "u = Finite s m \<and> v = Finite t k"
  proof -
    from that have "float_add u v = float_add (Finite s m) (Finite t k)" by blast
    then show ?thesis by (simp only: float_add_correct)
  qed
  show "is_double (float_add u v)" by (rule is_double_float_add)
qed

text \<open>
  The hypotheses of the theorem hold for \<open>1 + 2\<close>, \<open>1 + 2.5\<close>, \<open>3.5 + 2.5\<close> and
  \<open>1.0 + 2 ** 1024\<close>.
\<close>

theorem add_numeric_witness:
  "as_int (PyInt 1) = Some 1 \<and> as_int (PyInt 2) = Some 2
   \<and> long_as_double 1 = Inr (dyadic False 1 0)
   \<and> \<bar>1\<bar> < float_int_limit
   \<and> dyadic False 7 (- 1) = Finite False (7 * 2 ^ 1073)
   \<and> dyadic False 5 (- 1) = Finite False (5 * 2 ^ 1073)
   \<and> add empty_world (PyInt 1) (PyInt 2) = (Inr (PyInt (1 + 2)), empty_world)
   \<and> add empty_world (PyInt 1) (PyFloat (dyadic False 5 (- 1)))
       = (Inr (PyFloat (dyadic False 7 (- 1))), empty_world)
   \<and> add empty_world (PyFloat (dyadic False 7 (- 1))) (PyFloat (dyadic False 5 (- 1)))
       = (Inr (PyFloat (dyadic False 6 0)), empty_world)
   \<and> correctly_rounded (1 * 2 ^ 1074) (dyadic False 1 0)
   \<and> correctly_rounded (signed False (7 * 2 ^ 1073) + signed False (5 * 2 ^ 1073))
        (dyadic False 6 0)
   \<and> is_double (dyadic False 6 0)
   \<and> as_int (PyInt (2 ^ 1024)) = Some (2 ^ 1024) \<and> float_int_limit \<le> \<bar>2 ^ 1024\<bar>
   \<and> add empty_world (PyFloat (dyadic False 1 0)) (PyInt (2 ^ 1024))
       = (Inl (OverflowError ''int too large to convert to float''), empty_world)"
proof -
  have big: "as_int (PyInt (2 ^ 1024)) = Some (2 ^ 1024) \<and> float_int_limit \<le> \<bar>2 ^ 1024\<bar>"
    by (simp add: float_int_limit_def)
  from add_numeric [of "PyInt (2 ^ 1024)" "2 ^ 1024" _ _ empty_world _ "dyadic False 1 0"] big
  have o: "add empty_world (PyFloat (dyadic False 1 0)) (PyInt (2 ^ 1024))
       = (Inl (OverflowError ''int too large to convert to float''), empty_world)"
    by blast
  have h: "as_int (PyInt 1) = Some 1 \<and> as_int (PyInt 2) = Some 2" by simp
  have e: "nat (1074 + - 1) = 1073" by simp
  have d: "dyadic False 7 (- 1) = Finite False (7 * 2 ^ 1073)
      \<and> dyadic False 5 (- 1) = Finite False (5 * 2 ^ 1073)"
    by (simp only: dyadic_def e)
  have l: "as_int (PyInt 1) = Some 1 \<and> long_as_double 1 = Inr (dyadic False 1 0)"
    by (simp only: long_as_double_1) simp
  note t = add_numeric [of "PyInt 1" 1 "PyInt 2" 2 empty_world "dyadic False 7 (- 1)"
      "dyadic False 5 (- 1)" "dyadic False 1 0" False "7 * 2 ^ 1073" False "5 * 2 ^ 1073"]
  from t h l d have
    "add empty_world (PyInt 1) (PyInt 2) = (Inr (PyInt (1 + 2)), empty_world)
     \<and> add empty_world (PyInt 1) (PyFloat (dyadic False 5 (- 1)))
         = (Inr (PyFloat (float_add (dyadic False 1 0) (dyadic False 5 (- 1)))), empty_world)
     \<and> add empty_world (PyFloat (dyadic False 7 (- 1))) (PyFloat (dyadic False 5 (- 1)))
         = (Inr (PyFloat (float_add (dyadic False 7 (- 1)) (dyadic False 5 (- 1)))), empty_world)
     \<and> correctly_rounded (1 * 2 ^ 1074) (dyadic False 1 0)
     \<and> correctly_rounded (signed False (7 * 2 ^ 1073) + signed False (5 * 2 ^ 1073))
          (float_add (dyadic False 7 (- 1)) (dyadic False 5 (- 1)))
     \<and> is_double (float_add (dyadic False 7 (- 1)) (dyadic False 5 (- 1)))
     \<and> \<bar>1\<bar> < float_int_limit"
    by blast
  then have "add empty_world (PyInt 1) (PyInt 2) = (Inr (PyInt (1 + 2)), empty_world)
     \<and> add empty_world (PyInt 1) (PyFloat (dyadic False 5 (- 1)))
         = (Inr (PyFloat (dyadic False 7 (- 1))), empty_world)
     \<and> add empty_world (PyFloat (dyadic False 7 (- 1))) (PyFloat (dyadic False 5 (- 1)))
         = (Inr (PyFloat (dyadic False 6 0)), empty_world)
     \<and> correctly_rounded (1 * 2 ^ 1074) (dyadic False 1 0)
     \<and> correctly_rounded (signed False (7 * 2 ^ 1073) + signed False (5 * 2 ^ 1073))
          (dyadic False 6 0)
     \<and> is_double (dyadic False 6 0)
     \<and> \<bar>1\<bar> < float_int_limit"
    by (simp only: one_plus_two_and_a_half three_and_a_half_plus_two_and_a_half)
  with h l d big o show ?thesis by blast
qed

text \<open>
  The claim as stated fails for an integer too large for a float: \<open>add(2 ** 1024, 1.0)\<close>
  does not return, it raises \<open>OverflowError\<close>.
\<close>

theorem add_int_too_large_counterexample:
  "add empty_world (PyInt (2 ^ 1024)) (PyFloat (dyadic False 1 0))
     = (Inl (OverflowError ''int too large to convert to float''), empty_world)"
  by (rule add_two_pow_1024)

text \<open>
  Claim C2. The four evaluations of the driver give exactly these results:
  \<open>add(5, 3) == 8\<close>, \<open>add(10, 20) == 30\<close>, \<open>add(3.5, 2.5) == 6.0\<close> and
  \<open>add(-5, 15) == 10\<close>. Each call returns the value itself (an \<open>int\<close> for the integer
  operands, the \<open>float\<close> \<open>6.0\<close> for the third), and \<open>==\<close> on it answers \<open>True\<close>.
\<close>

theorem add_examples:
  "add w (PyInt 5) (PyInt 3) = (Inr (PyInt 8), w)
   \<and> result_equals (add w (PyInt 5) (PyInt 3)) (PyInt 8) = Some True
   \<and> add w (PyInt 10) (PyInt 20) = (Inr (PyInt 30), w)
   \<and> result_equals (add w (PyInt 10) (PyInt 20)) (PyInt 30) = Some True
   \<and> add w (PyFloat (dyadic False 7 (- 1))) (PyFloat (dyadic False 5 (- 1)))
       = (Inr (PyFloat (dyadic False 6 0)), w)
   \<and> result_equals (add w (PyFloat (dyadic False 7 (- 1))) (PyFloat (dyadic False 5 (- 1))))
        (PyFloat (dyadic False 6 0)) = Some True
   \<and> add w (PyInt (- 5)) (PyInt 15) = (Inr (PyInt 10), w)
   \<and> result_equals (add w (PyInt (- 5)) (PyInt 15)) (PyInt 10) = Some True"
  by (simp add: add_ints add_floats three_and_a_half_plus_two_and_a_half result_equals_def
      py_eq_def float_eq_six)

text \<open>
  Claim C3, as amended. For every pair of numeric values, \<open>add(a, b)\<close> and \<open>add(b, a)\<close>
  have the same outcome: the same value, or the same exception. When the call returns
  a value other than NaN, \<open>add(a, b) == add(b, a)\<close> is \<open>True\<close>.
\<close>

theorem add_commutative:
  assumes "is_number a" and "is_number b"
  shows "add w a b = add w b a
    \<and> (\<forall>v. fst (add w a b) = Inr v \<and> v \<noteq> PyFloat NaN
          \<longrightarrow> results_equal (add w a b) (add w b a) = Some True)"
proof (intro conjI allI impI)
  show c: "add w a b = add w b a" using assms by (rule add_commute_numbers)
  fix v
  assume v: "fst (add w a b) = Inr v \<and> v \<noteq> PyFloat NaN"
  then have "py_eq v v = Some True"
    using add_number_result [OF assms, of w v] by (simp add: py_eq_refl_number)
  with v show "results_equal (add w a b) (add w b a) = Some True"
    by (simp add: c [symmetric] results_equal_def result_equals_def)
qed

text \<open>The hypotheses hold for \<open>3.5\<close> and \<open>2.5\<close>.\<close>

theorem add_commutative_witness:
  "is_number (PyFloat (dyadic False 7 (- 1))) \<and> is_number (PyFloat (dyadic False 5 (- 1)))
   \<and> fst (add empty_world (PyFloat (dyadic False 7 (- 1))) (PyFloat (dyadic False 5 (- 1))))
       = Inr (PyFloat (dyadic False 6 0))
   \<and> PyFloat (dyadic False 6 0) \<noteq> PyFloat NaN
   \<and> add empty_world (PyFloat (dyadic False 7 (- 1))) (PyFloat (dyadic False 5 (- 1)))
       = add empty_world (PyFloat (dyadic False 5 (- 1))) (PyFloat (dyadic False 7 (- 1)))
   \<and> results_equal
        (add empty_world (PyFloat (dyadic False 7 (- 1))) (PyFloat (dyadic False 5 (- 1))))
        (add empty_world (PyFloat (dyadic False 5 (- 1))) (PyFloat (dyadic False 7 (- 1))))
       = Some True"
proof -
  have n: "is_number (PyFloat (dyadic False 7 (- 1)))" "is_number (PyFloat (dyadic False 5 (- 1)))"
    by (simp_all add: is_number_def)
  have r: "fst (add empty_world (PyFloat (dyadic False 7 (- 1))) (PyFloat (dyadic False 5 (- 1))))
       = Inr (PyFloat (dyadic False 6 0))"
    by (simp add: add_floats three_and_a_half_plus_two_and_a_half)
  have d: "PyFloat (dyadic False 6 0) \<noteq> PyFloat NaN" by (simp add: dyadic_def)
  from add_commutative [OF n, of empty_world] n r d show ?thesis by blast
qed

text \<open>
  The claim as stated fails when the sum is NaN, which is not equal to itself:
  \<open>add(inf, -inf) == add(-inf, inf)\<close> is \<open>False\<close>.
\<close>

theorem add_commutative_counterexample:
  "is_number (PyFloat (Infinity False)) \<and> is_number (PyFloat (Infinity True))
   \<and> results_equal (add empty_world (PyFloat (Infinity False)) (PyFloat (Infinity True)))
        (add empty_world (PyFloat (Infinity True)) (PyFloat (Infinity False))) = Some False"
  by (simp add: is_number_def results_equal_def result_equals_def add_def py_add_def builtin_add_def
      number_add_def convert_to_double_def py_eq_def)

text \<open>
  Claim C4, as amended. For every numeric value \<open>a\<close> other than NaN,
  \<open>add(a, 0) == a\<close> is \<open>True\<close>: zero is an identity element on the integers, the
  finite floats (\<open>-0.0 + 0\<close> is \<open>0.0\<close>, which equals \<open>-0.0\<close>) and the infinities.
\<close>

theorem add_zero_identity:
  assumes "is_number a" and "well_formed a" and "a \<noteq> PyFloat NaN"
  shows "result_equals (add w a (PyInt 0)) a = Some True"
proof (cases a)
  case (PyFloat x)
  with assms have "is_double x" and "x \<noteq> NaN" by (simp_all add: well_formed_def)
  then have "float_eq (float_add x (Finite False 0)) x" by (rule float_add_zero)
  with PyFloat show ?thesis
    by (simp add: result_equals_def add_def py_add_def builtin_add_def number_add_def convert_to_double_def
        long_as_double_0 py_eq_def)
qed (use assms(1) in \<open>simp_all add: is_number_def result_equals_def add_def py_add_def builtin_add_def
        number_add_def py_eq_def\<close>)

text \<open>The hypotheses hold for \<open>3.5\<close>.\<close>

theorem add_zero_identity_witness:
  "is_number (PyFloat (dyadic False 7 (- 1))) \<and> well_formed (PyFloat (dyadic False 7 (- 1)))
   \<and> PyFloat (dyadic False 7 (- 1)) \<noteq> PyFloat NaN
   \<and> result_equals (add empty_world (PyFloat (dyadic False 7 (- 1))) (PyInt 0))
        (PyFloat (dyadic False 7 (- 1))) = Some True"
proof -
  have n: "is_number (PyFloat (dyadic False 7 (- 1)))" by (simp add: is_number_def)
  have f: "well_formed (PyFloat (dyadic False 7 (- 1)))"
    by (simp add: well_formed_def is_double_three_and_a_half)
  have d: "PyFloat (dyadic False 7 (- 1)) \<noteq> PyFloat NaN" by (simp add: dyadic_def)
  from n f d add_zero_identity [OF n f d, of empty_world] show ?thesis by simp
qed

text \<open>The claim as stated fails at NaN: \<open>add(nan, 0) == nan\<close> is \<open>False\<close>.\<close>

theorem add_zero_nan_counterexample:
  "is_number (PyFloat NaN) \<and> result_equals (add empty_world (PyFloat NaN) (PyInt 0)) (PyFloat NaN) = Some False"
  by (simp add: is_number_def result_equals_def add_def py_add_def builtin_add_def number_add_def
      convert_to_double_def long_as_double_0 py_eq_def)







text \<open>
  Claim C9. For all integer operands, of any magnitude, \<open>add\<close> returns the exact
  mathematical sum: the integers of the program are the unbounded integers, so there is
  no overflow, no wrap-around and no loss of precision. The call changes nothing in the
  world.
\<close>

theorem add_int_exact: "add w (PyInt x) (PyInt y) = (Inr (PyInt (x + y)), w)"
  by (simp add: add_def py_add_def builtin_add_def number_add_def)




section \<open>The driver\<close>

text \<open>
  Claim C6. Executed directly (\<open>__name__\<close> is \<open>__main__\<close>), the module calls \<open>add\<close>
  with exactly the four literal pairs \<open>(5, 3)\<close>, \<open>(10, 20)\<close>, \<open>(3.5, 2.5)\<close>,
  \<open>(-5, 15)\<close>, in that order, and writes exactly four lines to standard output, one per
  call, each of the form \<open>a + b = result\<close> with the default string of the numbers; the
  run ends without an exception. This holds from any state of the world and for any
  runtime.
\<close>

theorem driver_output:
  "run_module ''__main__'' rt r =
     (None,
      \<lparr>world_of = (world_of r)\<lparr>stdout := stdout (world_of r) @
           lines_text [''5 + 3 = 8'', ''10 + 20 = 30'', ''3.5 + 2.5 = 6.0'', ''-5 + 15 = 10'']\<rparr>,
       calls = calls r @
         [(PyInt 5, PyInt 3), (PyInt 10, PyInt 20),
          (PyFloat (dyadic False 7 (- 1)), PyFloat (dyadic False 5 (- 1))),
          (PyInt (- 5), PyInt 15)]\<rparr>)"
  by (simp add: run_module_def main_def call_add_ints call_add_floats say_def py_print_def
      py_str_def str_examples three_and_a_half_plus_two_and_a_half repr_six lines_text_def)

text \<open>
  Claim C7. The driver runs only when the module is executed directly: when the module
  is imported (\<open>__name__\<close> is not \<open>__main__\<close>), none of the four calls is made and
  nothing is written to standard output; the run, that is the world and the trace of
  calls, is unchanged.
\<close>

theorem import_runs_nothing:
  "name \<noteq> ''__main__'' \<Longrightarrow> run_module name rt r = (None, r)"
  by (simp add: run_module_def)

theorem import_runs_nothing_witness:
  "''calculator'' \<noteq> ''__main__'' \<and> run_module ''calculator'' blank_runtime fresh_run = (None, fresh_run)
   \<and> calls fresh_run = [] \<and> stdout (world_of fresh_run) = []"
  using import_runs_nothing [of "''calculator''" blank_runtime fresh_run]
  by (simp add: fresh_run_def empty_world_def)

end
